theory Spec2Isabelle
  imports Main "HOL-Library.Char_ord" "HOL-Library.List_Lexorder"
begin

section \<open>The sporting club data-access service (lib/db.ts)\<close>

text \<open>
  The service \<^verbatim>\<open>SportingClubService\<close> keeps three object stores of an IndexedDB
  database: \<^verbatim>\<open>sports\<close>, \<^verbatim>\<open>members\<close> and \<^verbatim>\<open>subscriptions\<close>, each keyed by the
  field \<^verbatim>\<open>id\<close>.  Two calls of the source have no pure counterpart:
  \<^verbatim>\<open>crypto.randomUUID()\<close> and \<^verbatim>\<open>new Date()\<close>.  Every operation that makes them
  takes their results as arguments (\<open>uuid\<close> and \<open>now\<close>).  A \<^verbatim>\<open>Date\<close> is its number
  of milliseconds, an \<open>int\<close>.  Every \<^verbatim>\<open>async\<close> method runs to completion before
  the next one starts (one caller, one tab), so a method is a function from
  the state before the call to its outcome and the state after it.
\<close>

subsection \<open>Records of the schema \<^verbatim>\<open>SportingClubDB\<close>\<close>

type_synonym date = int

datatype member_status = MemberActive | MemberInactive

datatype subscription_status = Active | Cancelled

text \<open>
  The argument of \<^verbatim>\<open>addSport\<close> has the type of a stored sport without \<^verbatim>\<open>id\<close>,
  \<^verbatim>\<open>createdAt\<close> and \<^verbatim>\<open>updatedAt\<close>; the stored record extends it with the three.
  The fields \<^verbatim>\<open>id\<close>, \<^verbatim>\<open>status\<close>, \<^verbatim>\<open>createdAt\<close> and \<^verbatim>\<open>updatedAt\<close> occur in several
  record types and carry the record's name as a prefix here.
\<close>

record sport_data =
  name :: string
  description :: string
  category :: string
  maxMembers :: "int option"

record sport = sport_data +
  sport_id :: string
  sport_createdAt :: date
  sport_updatedAt :: date

record member_data =
  firstName :: string
  lastName :: string
  email :: string
  phone :: string
  dateOfBirth :: date
  address :: string
  membershipDate :: date
  member_status :: member_status

record member = member_data +
  member_id :: string
  member_createdAt :: date
  member_updatedAt :: date

record subscription =
  sub_id :: string
  memberId :: string
  sportId :: string
  subscriptionDate :: date
  sub_status :: subscription_status
  sub_createdAt :: date
  sub_updatedAt :: date

text \<open>
  What a method throws: \<^verbatim>\<open>new Error(message)\<close> of the service itself, or the
  \<^verbatim>\<open>ConstraintError\<close> with which IndexedDB rejects a write.
\<close>

datatype error = Error string | ConstraintError

subsection \<open>The storage medium: an IndexedDB object store\<close>

text \<open>
  An object store holds its records in ascending order of their primary key,
  here a list sorted by \<open>key\<close>.  \<open>same_unique v w\<close> says that \<open>v\<close> and \<open>w\<close> have
  the same key in an index created with \<^verbatim>\<open>{ unique: true }\<close>.

  \<^item> \<^verbatim>\<open>add\<close> is rejected when the key is already present or when another
    record has the same key in a unique index;
  \<^item> \<^verbatim>\<open>put\<close> replaces the record with the same key and is rejected when a
    record with another key has the same key in a unique index;
  \<^item> \<^verbatim>\<open>delete\<close> of an absent key succeeds and changes nothing;
  \<^item> \<^verbatim>\<open>getFromIndex\<close> yields the first record with the index key, in the
    order of the primary key, and \<^verbatim>\<open>getAllFromIndex\<close> all of them.

  A rejected request aborts its transaction, so the store is as before.
\<close>

definition store_get :: "('v \<Rightarrow> string) \<Rightarrow> string \<Rightarrow> 'v list \<Rightarrow> 'v option" where
  "store_get key k xs = find (\<lambda>w. key w = k) xs"

definition store_add ::
  "('v \<Rightarrow> string) \<Rightarrow> ('v \<Rightarrow> 'v \<Rightarrow> bool) \<Rightarrow> 'v \<Rightarrow> 'v list \<Rightarrow> error + 'v list" where
  "store_add key same_unique v xs =
     (if \<exists>w \<in> set xs. key w = key v then Inl ConstraintError
      else if \<exists>w \<in> set xs. same_unique w v then Inl ConstraintError
      else Inr (insort_key key v xs))"

definition store_put ::
  "('v \<Rightarrow> string) \<Rightarrow> ('v \<Rightarrow> 'v \<Rightarrow> bool) \<Rightarrow> 'v \<Rightarrow> 'v list \<Rightarrow> error + 'v list" where
  "store_put key same_unique v xs =
     (if \<exists>w \<in> set xs. key w \<noteq> key v \<and> same_unique w v then Inl ConstraintError
      else Inr (insort_key key v (filter (\<lambda>w. key w \<noteq> key v) xs)))"

definition store_delete :: "('v \<Rightarrow> string) \<Rightarrow> string \<Rightarrow> 'v list \<Rightarrow> 'v list" where
  "store_delete key k xs = filter (\<lambda>w. key w \<noteq> k) xs"

definition store_getFromIndex :: "('v \<Rightarrow> 'i) \<Rightarrow> 'i \<Rightarrow> 'v list \<Rightarrow> 'v option" where
  "store_getFromIndex index k xs = find (\<lambda>w. index w = k) xs"

definition store_getAllFromIndex :: "('v \<Rightarrow> 'i) \<Rightarrow> 'i \<Rightarrow> 'v list \<Rightarrow> 'v list" where
  "store_getAllFromIndex index k xs = filter (\<lambda>w. index w = k) xs"

text \<open>
  The unique indexes that \<^verbatim>\<open>init\<close> creates in \<^verbatim>\<open>upgrade\<close>: none on \<^verbatim>\<open>sports\<close>,
  \<^verbatim>\<open>by-email\<close> on \<^verbatim>\<open>members\<close>, \<^verbatim>\<open>by-member-sport\<close> on \<^verbatim>\<open>subscriptions\<close>.
\<close>

definition sports_unique :: "sport \<Rightarrow> sport \<Rightarrow> bool" where
  "sports_unique v w = False"

definition members_unique :: "member \<Rightarrow> member \<Rightarrow> bool" where
  "members_unique v w = (email v = email w)"

definition by_member_sport :: "subscription \<Rightarrow> string \<times> string" where
  "by_member_sport v = (memberId v, sportId v)"

definition subscriptions_unique :: "subscription \<Rightarrow> subscription \<Rightarrow> bool" where
  "subscriptions_unique v w = (by_member_sport v = by_member_sport w)"

subsection \<open>The state of the service\<close>

text \<open>
  \<open>db_open\<close> says that the field \<^verbatim>\<open>this.db\<close> is not \<^verbatim>\<open>null\<close>; the three lists are
  the object stores of the database, which outlive \<^verbatim>\<open>close\<close>.
\<close>

record service =
  db_open :: bool
  sports :: "sport list"
  members :: "member list"
  subscriptions :: "subscription list"

definition not_initialized :: error where
  "not_initialized = Error ''Database not initialized. Call init() first.''"

definition ensureDB :: "service \<Rightarrow> error + unit" where
  "ensureDB s = (if \<not> db_open s then Inl not_initialized else Inr ())"

subsection \<open>Sports operations\<close>

definition addSport ::
  "sport_data \<Rightarrow> string \<Rightarrow> date \<Rightarrow> service \<Rightarrow> (error + sport) \<times> service" where
  "addSport sport uuid now s =
     (case ensureDB s of Inl e \<Rightarrow> (Inl e, s) | Inr _ \<Rightarrow>
        let sportData = \<lparr>name = name sport, description = description sport,
                         category = category sport, maxMembers = maxMembers sport,
                         sport_id = uuid, sport_createdAt = now, sport_updatedAt = now\<rparr>
        in (case store_add sport_id sports_unique sportData (sports s) of
              Inl e \<Rightarrow> (Inl e, s)
            | Inr xs \<Rightarrow> (Inr sportData, s\<lparr>sports := xs\<rparr>)))"

definition getSport :: "string \<Rightarrow> service \<Rightarrow> error + sport option" where
  "getSport k s =
     (case ensureDB s of Inl e \<Rightarrow> Inl e | Inr _ \<Rightarrow> Inr (store_get sport_id k (sports s)))"

definition getAllSports :: "service \<Rightarrow> error + sport list" where
  "getAllSports s = (case ensureDB s of Inl e \<Rightarrow> Inl e | Inr _ \<Rightarrow> Inr (sports s))"

text \<open>
  The argument \<^verbatim>\<open>updates\<close> of \<^verbatim>\<open>updateSport\<close> may hold any field but \<^verbatim>\<open>id\<close> and
  \<^verbatim>\<open>createdAt\<close>: \<open>None\<close> is a field that is not there.  The spread
  \<^verbatim>\<open>{...sport, ...updates, updatedAt: new Date()}\<close> takes a field from \<^verbatim>\<open>updates\<close>
  when it is there and from the stored record otherwise.
\<close>

record sport_updates =
  set_name :: "string option"
  set_description :: "string option"
  set_category :: "string option"
  set_maxMembers :: "int option option"
  set_sport_updatedAt :: "date option"

definition spread :: "'a \<Rightarrow> 'a option \<Rightarrow> 'a" where
  "spread old upd = (case upd of None \<Rightarrow> old | Some v \<Rightarrow> v)"

definition updateSport ::
  "string \<Rightarrow> sport_updates \<Rightarrow> date \<Rightarrow> service \<Rightarrow> (error + sport) \<times> service" where
  "updateSport k updates now s =
     (case ensureDB s of Inl e \<Rightarrow> (Inl e, s) | Inr _ \<Rightarrow>
        (case store_get sport_id k (sports s) of
           None \<Rightarrow> (Inl (Error ''Sport not found''), s)
         | Some sport \<Rightarrow>
             let updatedSport = \<lparr>name = spread (name sport) (set_name updates),
                   description = spread (description sport) (set_description updates),
                   category = spread (category sport) (set_category updates),
                   maxMembers = spread (maxMembers sport) (set_maxMembers updates),
                   sport_id = sport_id sport, sport_createdAt = sport_createdAt sport,
                   sport_updatedAt = now\<rparr>
             in (case store_put sport_id sports_unique updatedSport (sports s) of
                   Inl e \<Rightarrow> (Inl e, s)
                 | Inr xs \<Rightarrow> (Inr updatedSport, s\<lparr>sports := xs\<rparr>))))"

definition deleteSport :: "string \<Rightarrow> service \<Rightarrow> (error + unit) \<times> service" where
  "deleteSport k s =
     (case ensureDB s of Inl e \<Rightarrow> (Inl e, s) | Inr _ \<Rightarrow>
        (Inr (), s\<lparr>sports := store_delete sport_id k (sports s)\<rparr>))"

subsection \<open>Members operations\<close>

definition addMember ::
  "member_data \<Rightarrow> string \<Rightarrow> date \<Rightarrow> service \<Rightarrow> (error + member) \<times> service" where
  "addMember member uuid now s =
     (case ensureDB s of Inl e \<Rightarrow> (Inl e, s) | Inr _ \<Rightarrow>
        let memberData = \<lparr>firstName = firstName member, lastName = lastName member,
                          email = email member, phone = phone member,
                          dateOfBirth = dateOfBirth member, address = address member,
                          membershipDate = membershipDate member,
                          member_status = member_status member,
                          member_id = uuid, member_createdAt = now, member_updatedAt = now\<rparr>
        in (case store_add member_id members_unique memberData (members s) of
              Inl e \<Rightarrow> (Inl e, s)
            | Inr xs \<Rightarrow> (Inr memberData, s\<lparr>members := xs\<rparr>)))"

definition getMember :: "string \<Rightarrow> service \<Rightarrow> error + member option" where
  "getMember k s =
     (case ensureDB s of Inl e \<Rightarrow> Inl e | Inr _ \<Rightarrow> Inr (store_get member_id k (members s)))"

definition getAllMembers :: "service \<Rightarrow> error + member list" where
  "getAllMembers s = (case ensureDB s of Inl e \<Rightarrow> Inl e | Inr _ \<Rightarrow> Inr (members s))"

record member_updates =
  set_firstName :: "string option"
  set_lastName :: "string option"
  set_email :: "string option"
  set_phone :: "string option"
  set_dateOfBirth :: "date option"
  set_address :: "string option"
  set_membershipDate :: "date option"
  set_member_status :: "member_status option"
  set_member_updatedAt :: "date option"

definition updateMember ::
  "string \<Rightarrow> member_updates \<Rightarrow> date \<Rightarrow> service \<Rightarrow> (error + member) \<times> service" where
  "updateMember k updates now s =
     (case ensureDB s of Inl e \<Rightarrow> (Inl e, s) | Inr _ \<Rightarrow>
        (case store_get member_id k (members s) of
           None \<Rightarrow> (Inl (Error ''Member not found''), s)
         | Some member \<Rightarrow>
             let updatedMember = \<lparr>firstName = spread (firstName member) (set_firstName updates),
                   lastName = spread (lastName member) (set_lastName updates),
                   email = spread (email member) (set_email updates),
                   phone = spread (phone member) (set_phone updates),
                   dateOfBirth = spread (dateOfBirth member) (set_dateOfBirth updates),
                   address = spread (address member) (set_address updates),
                   membershipDate = spread (membershipDate member) (set_membershipDate updates),
                   member_status = spread (member_status member) (set_member_status updates),
                   member_id = member_id member, member_createdAt = member_createdAt member,
                   member_updatedAt = now\<rparr>
             in (case store_put member_id members_unique updatedMember (members s) of
                   Inl e \<Rightarrow> (Inl e, s)
                 | Inr xs \<Rightarrow> (Inr updatedMember, s\<lparr>members := xs\<rparr>))))"

definition deleteMember :: "string \<Rightarrow> service \<Rightarrow> (error + unit) \<times> service" where
  "deleteMember k s =
     (case ensureDB s of Inl e \<Rightarrow> (Inl e, s) | Inr _ \<Rightarrow>
        (Inr (), s\<lparr>members := store_delete member_id k (members s)\<rparr>))"

subsection \<open>Subscriptions operations\<close>

text \<open>
  \<^verbatim>\<open>getSubscription\<close> calls \<^verbatim>\<open>ensureDB\<close> outside its \<^verbatim>\<open>try\<close>; the lookup inside
  it does not throw on a pair of strings, so its \<^verbatim>\<open>catch\<close> is never entered.
\<close>

definition getSubscription :: "string \<Rightarrow> string \<Rightarrow> service \<Rightarrow> error + subscription option" where
  "getSubscription m sp s =
     (case ensureDB s of Inl e \<Rightarrow> Inl e | Inr _ \<Rightarrow>
        Inr (store_getFromIndex by_member_sport (m, sp) (subscriptions s)))"

definition subscribeMemberToSport ::
  "string \<Rightarrow> string \<Rightarrow> string \<Rightarrow> date \<Rightarrow> service \<Rightarrow> (error + subscription) \<times> service" where
  "subscribeMemberToSport m sp uuid now s =
     (case ensureDB s of Inl e \<Rightarrow> (Inl e, s) | Inr _ \<Rightarrow>
        (case getSubscription m sp s of Inl e \<Rightarrow> (Inl e, s) | Inr existing \<Rightarrow>
           if (case existing of None \<Rightarrow> False | Some x \<Rightarrow> sub_status x = Active)
           then (Inl (Error ''Member is already subscribed to this sport''), s)
           else
             let subscriptionData = \<lparr>sub_id = uuid, memberId = m, sportId = sp,
                   subscriptionDate = now, sub_status = Active,
                   sub_createdAt = now, sub_updatedAt = now\<rparr>
             in (case store_add sub_id subscriptions_unique subscriptionData (subscriptions s) of
                   Inl e \<Rightarrow> (Inl e, s)
                 | Inr xs \<Rightarrow> (Inr subscriptionData, s\<lparr>subscriptions := xs\<rparr>))))"

definition getMemberSubscriptions :: "string \<Rightarrow> service \<Rightarrow> error + subscription list" where
  "getMemberSubscriptions m s =
     (case ensureDB s of Inl e \<Rightarrow> Inl e | Inr _ \<Rightarrow>
        Inr (store_getAllFromIndex memberId m (subscriptions s)))"

definition getSportSubscriptions :: "string \<Rightarrow> service \<Rightarrow> error + subscription list" where
  "getSportSubscriptions sp s =
     (case ensureDB s of Inl e \<Rightarrow> Inl e | Inr _ \<Rightarrow>
        Inr (store_getAllFromIndex sportId sp (subscriptions s)))"

definition getAllSubscriptions :: "service \<Rightarrow> error + subscription list" where
  "getAllSubscriptions s = (case ensureDB s of Inl e \<Rightarrow> Inl e | Inr _ \<Rightarrow> Inr (subscriptions s))"

definition cancelSubscription ::
  "string \<Rightarrow> string \<Rightarrow> date \<Rightarrow> service \<Rightarrow> (error + subscription) \<times> service" where
  "cancelSubscription m sp now s =
     (case ensureDB s of Inl e \<Rightarrow> (Inl e, s) | Inr _ \<Rightarrow>
        (case getSubscription m sp s of Inl e \<Rightarrow> (Inl e, s)
         | Inr None \<Rightarrow> (Inl (Error ''Subscription not found''), s)
         | Inr (Some subscription) \<Rightarrow>
             let updatedSubscription = subscription\<lparr>sub_status := Cancelled, sub_updatedAt := now\<rparr>
             in (case store_put sub_id subscriptions_unique updatedSubscription (subscriptions s) of
                   Inl e \<Rightarrow> (Inl e, s)
                 | Inr xs \<Rightarrow> (Inr updatedSubscription, s\<lparr>subscriptions := xs\<rparr>))))"

subsection \<open>Enhanced queries\<close>

text \<open>
  \<^verbatim>\<open>Promise.all\<close> is rejected with the error of a rejected promise and fulfilled
  with the list of all results otherwise; \<^verbatim>\<open>filter(Boolean)\<close> drops the
  \<^verbatim>\<open>undefined\<close> results of lookups that found nothing.
\<close>

fun promise_all :: "(error + 'a) list \<Rightarrow> error + 'a list" where
  "promise_all [] = Inr []"
| "promise_all (Inl e # ps) = Inl e"
| "promise_all (Inr v # ps) = (case promise_all ps of Inl e \<Rightarrow> Inl e | Inr vs \<Rightarrow> Inr (v # vs))"

fun filter_Boolean :: "'a option list \<Rightarrow> 'a list" where
  "filter_Boolean [] = []"
| "filter_Boolean (None # xs) = filter_Boolean xs"
| "filter_Boolean (Some x # xs) = x # filter_Boolean xs"

record member_with_sports = member +
  mws_sports :: "sport list"
  mws_subscriptions :: "subscription list"

record sport_with_members = sport +
  swm_members :: "member list"
  swm_subscriptions :: "subscription list"
  memberCount :: nat

definition getMemberWithSports :: "string \<Rightarrow> service \<Rightarrow> error + member_with_sports option" where
  "getMemberWithSports m s =
     (case getMember m s of Inl e \<Rightarrow> Inl e
      | Inr None \<Rightarrow> Inr None
      | Inr (Some member) \<Rightarrow>
          (case getMemberSubscriptions m s of Inl e \<Rightarrow> Inl e
           | Inr subs \<Rightarrow>
               let activeSubscriptions = filter (\<lambda>sub. sub_status sub = Active) subs
               in (case promise_all (map (\<lambda>sub. getSport (sportId sub) s) activeSubscriptions) of
                     Inl e \<Rightarrow> Inl e
                   | Inr found \<Rightarrow>
                       Inr (Some (member.extend member
                         \<lparr>mws_sports = filter_Boolean found,
                          mws_subscriptions = activeSubscriptions\<rparr>)))))"

definition getSportWithMembers :: "string \<Rightarrow> service \<Rightarrow> error + sport_with_members option" where
  "getSportWithMembers sp s =
     (case getSport sp s of Inl e \<Rightarrow> Inl e
      | Inr None \<Rightarrow> Inr None
      | Inr (Some sport) \<Rightarrow>
          (case getSportSubscriptions sp s of Inl e \<Rightarrow> Inl e
           | Inr subs \<Rightarrow>
               let activeSubscriptions = filter (\<lambda>sub. sub_status sub = Active) subs
               in (case promise_all (map (\<lambda>sub. getMember (memberId sub) s) activeSubscriptions) of
                     Inl e \<Rightarrow> Inl e
                   | Inr found \<Rightarrow>
                       Inr (Some (sport.extend sport
                         \<lparr>swm_members = filter_Boolean found,
                          swm_subscriptions = activeSubscriptions,
                          memberCount = length activeSubscriptions\<rparr>)))))"

definition clearAllData :: "service \<Rightarrow> (error + unit) \<times> service" where
  "clearAllData s =
     (case ensureDB s of Inl e \<Rightarrow> (Inl e, s) | Inr _ \<Rightarrow>
        (Inr (), s\<lparr>sports := [], members := [], subscriptions := []\<rparr>))"

definition close :: "service \<Rightarrow> service" where
  "close s = (if db_open s then s\<lparr>db_open := False\<rparr> else s)"

subsection \<open>Initialisation and seeding\<close>

definition initialSports :: "sport_data list" where
  "initialSports =
     [\<lparr>name = ''Football'', description = ''Association football'',
       category = ''Team Sports'', maxMembers = None\<rparr>,
      \<lparr>name = ''Basketball'', description = ''Indoor basketball'',
       category = ''Team Sports'', maxMembers = None\<rparr>,
      \<lparr>name = ''Tennis'', description = ''Individual or doubles tennis'',
       category = ''Racquet Sports'', maxMembers = None\<rparr>,
      \<lparr>name = ''Swimming'', description = ''Competitive swimming'',
       category = ''Water Sports'', maxMembers = None\<rparr>,
      \<lparr>name = ''Volleyball'', description = ''Indoor volleyball'',
       category = ''Team Sports'', maxMembers = None\<rparr>]"

text \<open>
  The loop \<^verbatim>\<open>for (const sport of initialSports) await this.addSport(sport)\<close>.
  \<open>draw n\<close> is the UUID and the date that the \<open>n\<close>-th call of \<^verbatim>\<open>addSport\<close> gets.
  An \<^verbatim>\<open>addSport\<close> that throws ends the loop; the sports added before it stay.
\<close>

fun seed_loop ::
  "(nat \<Rightarrow> string \<times> date) \<Rightarrow> nat \<Rightarrow> sport_data list \<Rightarrow> service \<Rightarrow> (error + unit) \<times> service" where
  "seed_loop draw n [] s = (Inr (), s)"
| "seed_loop draw n (sport # rest) s =
     (case addSport sport (fst (draw n)) (snd (draw n)) s of
        (Inl e, s') \<Rightarrow> (Inl e, s')
      | (Inr _, s') \<Rightarrow> seed_loop draw (Suc n) rest s')"

definition seedInitialData :: "(nat \<Rightarrow> string \<times> date) \<Rightarrow> service \<Rightarrow> (error + unit) \<times> service" where
  "seedInitialData draw s =
     (case getAllSports s of Inl e \<Rightarrow> (Inl e, s)
      | Inr found \<Rightarrow>
          if length found = 0 then seed_loop draw 0 initialSports s else (Inr (), s))"

text \<open>
  \<^verbatim>\<open>openDB\<close> creates the three object stores, empty, when the database does not
  exist yet, and opens the stored ones otherwise: the lists of the state stay.
\<close>

definition init :: "(nat \<Rightarrow> string \<times> date) \<Rightarrow> service \<Rightarrow> (error + unit) \<times> service" where
  "init draw s = seedInitialData draw (s\<lparr>db_open := True\<rparr>)"

subsection \<open>Runs of the service\<close>

text \<open>
  The public methods of the class, each with its arguments and with what it
  draws from \<^verbatim>\<open>crypto.randomUUID()\<close> and \<^verbatim>\<open>new Date()\<close>.  \<open>exec\<close> keeps of a call
  the error it threw, if any, and the state after it.
\<close>

datatype operation =
    Init "nat \<Rightarrow> string \<times> date"
  | AddSport sport_data string date
  | GetSport string
  | GetAllSports
  | UpdateSport string sport_updates date
  | DeleteSport string
  | AddMember member_data string date
  | GetMember string
  | GetAllMembers
  | UpdateMember string member_updates date
  | DeleteMember string
  | SubscribeMemberToSport string string string date
  | GetSubscription string string
  | GetMemberSubscriptions string
  | GetSportSubscriptions string
  | GetAllSubscriptions
  | CancelSubscription string string date
  | GetMemberWithSports string
  | GetSportWithMembers string
  | ClearAllData
  | Close

definition thrown :: "error + 'a \<Rightarrow> error option" where
  "thrown r = (case r of Inl e \<Rightarrow> Some e | Inr _ \<Rightarrow> None)"

definition writes :: "(error + 'a) \<times> service \<Rightarrow> error option \<times> service" where
  "writes r = (thrown (fst r), snd r)"

definition reads :: "error + 'a \<Rightarrow> service \<Rightarrow> error option \<times> service" where
  "reads r s = (thrown r, s)"

fun exec :: "operation \<Rightarrow> service \<Rightarrow> error option \<times> service" where
  "exec (Init draw) s = writes (init draw s)"
| "exec (AddSport sport uuid now) s = writes (addSport sport uuid now s)"
| "exec (GetSport k) s = reads (getSport k s) s"
| "exec GetAllSports s = reads (getAllSports s) s"
| "exec (UpdateSport k updates now) s = writes (updateSport k updates now s)"
| "exec (DeleteSport k) s = writes (deleteSport k s)"
| "exec (AddMember member uuid now) s = writes (addMember member uuid now s)"
| "exec (GetMember k) s = reads (getMember k s) s"
| "exec GetAllMembers s = reads (getAllMembers s) s"
| "exec (UpdateMember k updates now) s = writes (updateMember k updates now s)"
| "exec (DeleteMember k) s = writes (deleteMember k s)"
| "exec (SubscribeMemberToSport m sp uuid now) s = writes (subscribeMemberToSport m sp uuid now s)"
| "exec (GetSubscription m sp) s = reads (getSubscription m sp s) s"
| "exec (GetMemberSubscriptions m) s = reads (getMemberSubscriptions m s) s"
| "exec (GetSportSubscriptions sp) s = reads (getSportSubscriptions sp s) s"
| "exec GetAllSubscriptions s = reads (getAllSubscriptions s) s"
| "exec (CancelSubscription m sp now) s = writes (cancelSubscription m sp now s)"
| "exec (GetMemberWithSports m) s = reads (getMemberWithSports m s) s"
| "exec (GetSportWithMembers sp) s = reads (getSportWithMembers sp s) s"
| "exec ClearAllData s = writes (clearAllData s)"
| "exec Close s = (None, close s)"

text \<open>
  Before the first \<^verbatim>\<open>init\<close> the handle is \<^verbatim>\<open>null\<close> and the database does not
  exist.  A state is reachable when some sequence of calls leads to it.
\<close>

definition initial :: service where
  "initial = \<lparr>db_open = False, sports = [], members = [], subscriptions = []\<rparr>"

inductive reachable :: "service \<Rightarrow> bool" where
  start: "reachable initial"
| call: "reachable s \<Longrightarrow> reachable (snd (exec op s))"

text \<open>
  What IndexedDB maintains in every object store: the records are in the
  order of their keys, no key occurs twice, and no key of a unique index
  occurs twice.
\<close>

definition consistent :: "service \<Rightarrow> bool" where
  "consistent s =
     (sorted (map sport_id (sports s)) \<and> distinct (map sport_id (sports s)) \<and>
      sorted (map member_id (members s)) \<and> distinct (map member_id (members s)) \<and>
      distinct (map email (members s)) \<and>
      sorted (map sub_id (subscriptions s)) \<and> distinct (map sub_id (subscriptions s)) \<and>
      distinct (map by_member_sport (subscriptions s)))"

text \<open>The subscription rows of a pair, and those of them that are active.\<close>

definition pair_rows :: "string \<Rightarrow> string \<Rightarrow> service \<Rightarrow> subscription list" where
  "pair_rows m sp s = filter (\<lambda>x. memberId x = m \<and> sportId x = sp) (subscriptions s)"

definition active_rows :: "string \<Rightarrow> string \<Rightarrow> service \<Rightarrow> subscription list" where
  "active_rows m sp s = filter (\<lambda>x. sub_status x = Active) (pair_rows m sp s)"

text \<open>
  The rows that the two joins keep: \<^verbatim>\<open>getAllFromIndex\<close> on \<^verbatim>\<open>by-member\<close> or
  \<^verbatim>\<open>by-sport\<close>, then \<^verbatim>\<open>filter(sub => sub.status === 'active')\<close>.
\<close>

definition active_of_member :: "string \<Rightarrow> service \<Rightarrow> subscription list" where
  "active_of_member m s =
     filter (\<lambda>sub. sub_status sub = Active)
       (store_getAllFromIndex memberId m (subscriptions s))"

definition active_of_sport :: "string \<Rightarrow> service \<Rightarrow> subscription list" where
  "active_of_sport sp s =
     filter (\<lambda>sub. sub_status sub = Active)
       (store_getAllFromIndex sportId sp (subscriptions s))"

subsection \<open>A small club\<close>

text \<open>
  States of a club with one sport and one member, each the result of one call
  on the state before it; the theorems below are run on them.
\<close>

definition football :: sport_data where
  "football = \<lparr>name = ''Football'', description = ''Association football'',
     category = ''Team Sports'', maxMembers = None\<rparr>"

definition ada :: member_data where
  "ada = \<lparr>firstName = ''Ada'', lastName = ''Byron'', email = ''a@b.com'', phone = ''555'',
     dateOfBirth = 0, address = ''London'', membershipDate = 1, member_status = MemberActive\<rparr>"

definition stored_football :: sport where
  "stored_football = \<lparr>name = ''Football'', description = ''Association football'',
     category = ''Team Sports'', maxMembers = None,
     sport_id = ''s1'', sport_createdAt = 10, sport_updatedAt = 10\<rparr>"

definition stored_ada :: member where
  "stored_ada = \<lparr>firstName = ''Ada'', lastName = ''Byron'', email = ''a@b.com'', phone = ''555'',
     dateOfBirth = 0, address = ''London'', membershipDate = 1, member_status = MemberActive,
     member_id = ''m1'', member_createdAt = 20, member_updatedAt = 20\<rparr>"

definition row_active :: subscription where
  "row_active = \<lparr>sub_id = ''u1'', memberId = ''m1'', sportId = ''s1'', subscriptionDate = 30,
     sub_status = Active, sub_createdAt = 30, sub_updatedAt = 30\<rparr>"

definition row_cancelled :: subscription where
  "row_cancelled = \<lparr>sub_id = ''u1'', memberId = ''m1'', sportId = ''s1'', subscriptionDate = 30,
     sub_status = Cancelled, sub_createdAt = 30, sub_updatedAt = 40\<rparr>"

definition club0 :: service where
  "club0 = \<lparr>db_open = True, sports = [], members = [], subscriptions = []\<rparr>"

definition club1 :: service where
  "club1 = snd (addSport football ''s1'' 10 club0)"

definition club2 :: service where
  "club2 = snd (addMember ada ''m1'' 20 club1)"

definition club3 :: service where
  "club3 = snd (subscribeMemberToSport ''m1'' ''s1'' ''u1'' 30 club2)"

definition club4 :: service where
  "club4 = snd (cancelSubscription ''m1'' ''s1'' 40 club3)"

definition club5 :: service where
  "club5 = snd (deleteMember ''m1'' club3)"

definition club6 :: service where
  "club6 = snd (deleteSport ''s1'' club3)"



section \<open>Properties\<close>

subsection \<open>The small club, evaluated\<close>

lemmas store_defs = ensureDB_def store_add_def store_put_def store_get_def store_delete_def
  store_getFromIndex_def store_getAllFromIndex_def sports_unique_def members_unique_def
  subscriptions_unique_def by_member_sport_def Let_def

lemmas row_defs = football_def ada_def stored_football_def stored_ada_def row_active_def
  row_cancelled_def

lemma club1_eq:
  "club1 = \<lparr>db_open = True, sports = [stored_football], members = [], subscriptions = []\<rparr>"
  by (simp add: club1_def club0_def row_defs addSport_def store_defs)

lemma club2_eq:
  "club2 = \<lparr>db_open = True, sports = [stored_football], members = [stored_ada],
     subscriptions = []\<rparr>"
  by (simp add: club2_def club1_eq row_defs addMember_def store_defs)

lemma club3_eq:
  "club3 = \<lparr>db_open = True, sports = [stored_football], members = [stored_ada],
     subscriptions = [row_active]\<rparr>"
  by (simp add: club3_def club2_eq row_defs subscribeMemberToSport_def getSubscription_def
      store_defs)

lemma club4_eq:
  "club4 = \<lparr>db_open = True, sports = [stored_football], members = [stored_ada],
     subscriptions = [row_cancelled]\<rparr>"
  by (simp add: club4_def club3_eq row_defs cancelSubscription_def getSubscription_def
      store_defs)

lemma club5_eq:
  "club5 = \<lparr>db_open = True, sports = [stored_football], members = [],
     subscriptions = [row_active]\<rparr>"
  by (simp add: club5_def club3_eq row_defs deleteMember_def store_defs)

lemma club6_eq:
  "club6 = \<lparr>db_open = True, sports = [], members = [stored_ada],
     subscriptions = [row_active]\<rparr>"
  by (simp add: club6_def club3_eq row_defs deleteSport_def store_defs)

subsection \<open>Lists as object stores\<close>

lemma find_filter_conv: "find P xs = (case filter P xs of [] \<Rightarrow> None | x # _ \<Rightarrow> Some x)"
  by (induction xs) auto

lemma store_get_insort:
  "\<forall>w \<in> set xs. key w \<noteq> key v \<Longrightarrow> store_get key (key v) (insort_key key v xs) = Some v"
  by (induction xs) (auto simp: store_get_def)

lemma filter_unique_key:
  "distinct (map f xs) \<Longrightarrow> x \<in> set xs \<Longrightarrow> filter (\<lambda>w. f w = f x) xs = [x]"
proof (induction xs)
  case Nil
  then show ?case by simp
next
  case (Cons a xs)
  show ?case
  proof (cases "a = x")
    case True
    with Cons.prems have "\<forall>w \<in> set xs. f w \<noteq> f x" by (auto simp: image_iff)
    then have "filter (\<lambda>w. f w = f x) xs = []" by (simp add: filter_empty_conv)
    with True show ?thesis by simp
  next
    case False
    with Cons.prems have "x \<in> set xs" and "f a \<noteq> f x" by auto
    with Cons show ?thesis by simp
  qed
qed

lemma length_filter_other:
  "distinct xs \<Longrightarrow> x \<in> set xs \<Longrightarrow> Suc (length (filter (\<lambda>w. w \<noteq> x) xs)) = length xs"
proof (induction xs)
  case Nil
  then show ?case by simp
next
  case (Cons a xs)
  show ?case
  proof (cases "a = x")
    case True
    with Cons.prems have "filter (\<lambda>w. w \<noteq> x) xs = xs" by (auto simp: filter_id_conv)
    with True show ?thesis by simp
  next
    case False
    with Cons show ?thesis by simp
  qed
qed

lemma filter_insort_single:
  "P x \<Longrightarrow> filter P xs = [] \<Longrightarrow> filter P (insort_key f x xs) = [x]"
  by (induction xs) (auto split: if_splits)

subsection \<open>Looking a pair up\<close>

lemma getSubscription_rows:
  "db_open s \<Longrightarrow>
   getSubscription m sp s = Inr (case pair_rows m sp s of [] \<Rightarrow> None | x # _ \<Rightarrow> Some x)"
  by (simp add: getSubscription_def ensureDB_def store_getFromIndex_def by_member_sport_def
      pair_rows_def find_filter_conv)

lemma pair_rows_mem:
  "w \<in> set (pair_rows m sp s) \<longleftrightarrow>
   w \<in> set (subscriptions s) \<and> memberId w = m \<and> sportId w = sp"
  by (auto simp: pair_rows_def)

lemma pair_rows_unique:
  assumes "consistent s" and "x \<in> set (subscriptions s)"
  shows "pair_rows (memberId x) (sportId x) s = [x]"
proof -
  from assms(1) have "distinct (map by_member_sport (subscriptions s))"
    by (simp add: consistent_def)
  from filter_unique_key [OF this assms(2)] show ?thesis
    by (simp add: pair_rows_def by_member_sport_def)
qed

subsection \<open>Adding and reading back\<close>

text \<open>
  C5.  On an initialised service, \<^verbatim>\<open>addSport\<close> with a UUID that is no key of
  the store succeeds, and \<^verbatim>\<open>getSport\<close> with that id then returns the record that
  was returned: the fields of the input, the id, and \<^verbatim>\<open>createdAt\<close> and
  \<^verbatim>\<open>updatedAt\<close> both set to the date of the call.  The same holds of
  \<^verbatim>\<open>addMember\<close> and \<^verbatim>\<open>getMember\<close> for an input whose email no member has.
\<close>

theorem add_then_get:
  "(db_open s \<and> uuid \<notin> sport_id ` set (sports s) \<longrightarrow>
      (\<exists>r s'. addSport sport uuid now s = (Inr r, s') \<and> getSport uuid s' = Inr (Some r) \<and>
         sport_data.truncate r = sport \<and> sport_id r = uuid \<and>
         sport_createdAt r = now \<and> sport_updatedAt r = now)) \<and>
   (db_open s \<and> uuid \<notin> member_id ` set (members s) \<and>
    email member \<notin> email ` set (members s) \<longrightarrow>
      (\<exists>r s'. addMember member uuid now s = (Inr r, s') \<and> getMember uuid s' = Inr (Some r) \<and>
         member_data.truncate r = member \<and> member_id r = uuid \<and>
         member_createdAt r = now \<and> member_updatedAt r = now))"
proof (intro conjI impI)
  assume a: "db_open s \<and> uuid \<notin> sport_id ` set (sports s)"
  let ?r = "\<lparr>name = name sport, description = description sport,
              category = category sport, maxMembers = maxMembers sport,
              sport_id = uuid, sport_createdAt = now, sport_updatedAt = now\<rparr>"
  let ?s = "s\<lparr>sports := insort_key sport_id ?r (sports s)\<rparr>"
  from a have fresh: "\<forall>w \<in> set (sports s). sport_id w \<noteq> sport_id ?r" by auto
  then have add: "addSport sport uuid now s = (Inr ?r, ?s)"
    using a by (simp add: addSport_def ensureDB_def store_add_def sports_unique_def Let_def)
  have get: "getSport uuid ?s = Inr (Some ?r)"
    using a store_get_insort [OF fresh] by (simp add: getSport_def ensureDB_def)
  have "sport_data.truncate ?r = sport"
    by (simp add: sport_data.truncate_def)
  with add get
  show "\<exists>r s'. addSport sport uuid now s = (Inr r, s') \<and> getSport uuid s' = Inr (Some r) \<and>
         sport_data.truncate r = sport \<and> sport_id r = uuid \<and>
         sport_createdAt r = now \<and> sport_updatedAt r = now"
    by simp
next
  assume a: "db_open s \<and> uuid \<notin> member_id ` set (members s) \<and>
    email member \<notin> email ` set (members s)"
  let ?r = "\<lparr>firstName = firstName member, lastName = lastName member,
              email = email member, phone = phone member,
              dateOfBirth = dateOfBirth member, address = address member,
              membershipDate = membershipDate member, member_status = member_status member,
              member_id = uuid, member_createdAt = now, member_updatedAt = now\<rparr>"
  let ?s = "s\<lparr>members := insort_key member_id ?r (members s)\<rparr>"
  from a have fresh: "\<forall>w \<in> set (members s). member_id w \<noteq> member_id ?r" by auto
  from a have uniq: "\<forall>w \<in> set (members s). email w \<noteq> email member"
    by (auto simp: image_iff)
  have add: "addMember member uuid now s = (Inr ?r, ?s)"
    using a fresh uniq
    by (simp add: addMember_def ensureDB_def store_add_def members_unique_def Let_def)
  have get: "getMember uuid ?s = Inr (Some ?r)"
    using a store_get_insort [OF fresh] by (simp add: getMember_def ensureDB_def)
  have "member_data.truncate ?r = member"
    by (simp add: member_data.truncate_def)
  with add get
  show "\<exists>r s'. addMember member uuid now s = (Inr r, s') \<and> getMember uuid s' = Inr (Some r) \<and>
         member_data.truncate r = member \<and> member_id r = uuid \<and>
         member_createdAt r = now \<and> member_updatedAt r = now"
    by simp
qed

theorem add_then_get_witness:
  "(db_open club0 \<and> ''s1'' \<notin> sport_id ` set (sports club0)) \<and>
   addSport football ''s1'' 10 club0 = (Inr stored_football, club1) \<and>
   getSport ''s1'' club1 = Inr (Some stored_football) \<and>
   (db_open club1 \<and> ''m1'' \<notin> member_id ` set (members club1) \<and>
    email ada \<notin> email ` set (members club1)) \<and>
   addMember ada ''m1'' 20 club1 = (Inr stored_ada, club2) \<and>
   getMember ''m1'' club2 = Inr (Some stored_ada)"
proof -
  have h1: "db_open club0 \<and> ''s1'' \<notin> sport_id ` set (sports club0)"
    by (simp add: club0_def)
  have h2: "db_open club1 \<and> ''m1'' \<notin> member_id ` set (members club1) \<and>
    email ada \<notin> email ` set (members club1)"
    by (simp add: club1_eq)
  have a1: "addSport football ''s1'' 10 club0 = (Inr stored_football, club1)"
    by (simp add: club1_eq club0_def row_defs addSport_def store_defs)
  have a2: "addMember ada ''m1'' 20 club1 = (Inr stored_ada, club2)"
    by (simp add: club2_eq club1_eq row_defs addMember_def store_defs)
  from add_then_get [where s = club0 and uuid = "''s1''" and sport = football and now = 10]
    h1 a1
  have g1: "getSport ''s1'' club1 = Inr (Some stored_football)" by auto
  from add_then_get [where s = club1 and uuid = "''m1''" and member = ada and now = 20]
    h2 a2
  have g2: "getMember ''m1'' club2 = Inr (Some stored_ada)" by auto
  from h1 h2 a1 a2 g1 g2 show ?thesis by simp
qed

text \<open>
  C3.  When \<^verbatim>\<open>addMember\<close> has succeeded, a second \<^verbatim>\<open>addMember\<close> whose input has
  the same email is rejected with the \<^verbatim>\<open>ConstraintError\<close> of the unique index
  \<^verbatim>\<open>by-email\<close>, whatever its other fields, its UUID and its date are, and it
  leaves the state as it was; \<^verbatim>\<open>getMember\<close> still returns the first member, with
  the fields of the first input, and \<^verbatim>\<open>getAllMembers\<close> still lists it.
\<close>

lemma addMember_Inr:
  "addMember member uuid now s = (Inr r, s') \<Longrightarrow>
     db_open s \<and> (\<forall>w \<in> set (members s). member_id w \<noteq> uuid) \<and>
     r = \<lparr>firstName = firstName member, lastName = lastName member,
           email = email member, phone = phone member,
           dateOfBirth = dateOfBirth member, address = address member,
           membershipDate = membershipDate member, member_status = member_status member,
           member_id = uuid, member_createdAt = now, member_updatedAt = now\<rparr> \<and>
     s' = s\<lparr>members := insort_key member_id r (members s)\<rparr>"
  by (auto simp: addMember_def ensureDB_def store_add_def Let_def split: if_splits)

theorem duplicate_email:
  assumes "addMember first uuid1 now1 s = (Inr r, s1)" and "email second = email first"
  shows "addMember second uuid2 now2 s1 = (Inl ConstraintError, s1) \<and>
         getMember uuid1 s1 = Inr (Some r) \<and>
         (\<exists>all. getAllMembers s1 = Inr all \<and> r \<in> set all) \<and>
         member_data.truncate r = first"
proof -
  note f = addMember_Inr [OF assms(1)]
  from f have fresh: "\<forall>w \<in> set (members s). member_id w \<noteq> member_id r" by auto
  from f have s1: "s1 = s\<lparr>members := insort_key member_id r (members s)\<rparr>" by simp
  from f have id: "member_id r = uuid1" by auto
  from f have em: "email r = email first" by auto
  have o: "db_open s1" using f by simp
  have mem: "r \<in> set (members s1)" by (simp add: s1 set_insort_key)
  have 1: "addMember second uuid2 now2 s1 = (Inl ConstraintError, s1)"
    using o mem em assms(2)
    by (auto simp: addMember_def ensureDB_def store_add_def Let_def members_unique_def)
  have 2: "getMember uuid1 s1 = Inr (Some r)"
    using o store_get_insort [OF fresh] by (simp add: getMember_def ensureDB_def s1 id)
  have 3: "getAllMembers s1 = Inr (members s1)"
    using o by (simp add: getAllMembers_def ensureDB_def)
  have 4: "member_data.truncate r = first"
    using f by (simp add: member_data.truncate_def)
  from 1 2 3 4 mem show ?thesis by simp
qed

theorem duplicate_email_witness:
  "addMember ada ''m1'' 20 club1 = (Inr stored_ada, club2) \<and>
   email (ada\<lparr>firstName := ''Bob'', phone := ''777''\<rparr>) = email ada \<and>
   addMember (ada\<lparr>firstName := ''Bob'', phone := ''777''\<rparr>) ''m2'' 21 club2
     = (Inl ConstraintError, club2) \<and>
   getMember ''m1'' club2 = Inr (Some stored_ada) \<and>
   (\<exists>all. getAllMembers club2 = Inr all \<and> stored_ada \<in> set all) \<and>
   member_data.truncate stored_ada = ada"
proof -
  have a: "addMember ada ''m1'' 20 club1 = (Inr stored_ada, club2)"
    by (simp add: club2_eq club1_eq row_defs addMember_def store_defs)
  have e: "email (ada\<lparr>firstName := ''Bob'', phone := ''777''\<rparr>) = email ada"
    by simp
  show ?thesis
    using a e duplicate_email [OF a e, of "''m2''" 21] by simp
qed

subsection \<open>Deleting a sport\<close>

text \<open>
  C6.  \<^verbatim>\<open>deleteSport\<close> never changes the subscriptions, whether or not a row
  refers to the sport.  On an initialised service it succeeds for every id,
  present or not, and \<^verbatim>\<open>getSport\<close> with that id then finds nothing.
\<close>

theorem deleteSport_removes:
  "subscriptions (snd (deleteSport k s)) = subscriptions s \<and>
   (db_open s \<longrightarrow>
      fst (deleteSport k s) = Inr () \<and> getSport k (snd (deleteSport k s)) = Inr None)"
  by (auto simp: deleteSport_def getSport_def ensureDB_def store_get_def store_delete_def
      find_None_iff)

theorem deleteSport_removes_witness:
  "db_open club3 \<and> getSport ''s1'' club3 = Inr (Some stored_football) \<and>
   subscriptions club3 = [row_active] \<and> sportId row_active = ''s1'' \<and>
   fst (deleteSport ''s1'' club3) = Inr () \<and>
   getSport ''s1'' (snd (deleteSport ''s1'' club3)) = Inr None \<and>
   subscriptions (snd (deleteSport ''s1'' club3)) = [row_active]"
proof -
  have o: "db_open club3" by (simp add: club3_eq)
  have p: "getSport ''s1'' club3 = Inr (Some stored_football) \<and>
    subscriptions club3 = [row_active] \<and> sportId row_active = ''s1''"
    by (simp add: club3_eq getSport_def store_defs row_defs)
  show ?thesis
    using o p deleteSport_removes [of "''s1''" club3] by simp
qed

subsection \<open>Cancelling\<close>

text \<open>
  C8.  On an initialised service, \<^verbatim>\<open>cancelSubscription\<close> for a pair that has no
  row throws \<^verbatim>\<open>Error('Subscription not found')\<close> and leaves the state as it was.
\<close>

theorem cancel_absent:
  "db_open s \<Longrightarrow> pair_rows m sp s = [] \<Longrightarrow>
   cancelSubscription m sp now s = (Inl (Error ''Subscription not found''), s)"
  by (simp add: cancelSubscription_def getSubscription_rows ensureDB_def)

theorem cancel_absent_witness:
  "db_open club2 \<and> pair_rows ''m1'' ''s1'' club2 = [] \<and>
   cancelSubscription ''m1'' ''s1'' 40 club2 = (Inl (Error ''Subscription not found''), club2)"
proof -
  have o: "db_open club2" by (simp add: club2_eq)
  have n: "pair_rows ''m1'' ''s1'' club2 = []" by (simp add: club2_eq pair_rows_def)
  show ?thesis using o n cancel_absent [OF o n, of 40] by simp
qed

text \<open>The effect of cancelling the row of a pair, whatever its status.\<close>

lemma cancel_row:
  fixes s :: service and x :: subscription and now :: date
  assumes o: "db_open s" and c: "consistent s" and x: "x \<in> set (subscriptions s)"
  defines "y \<equiv> x\<lparr>sub_status := Cancelled, sub_updatedAt := now\<rparr>"
  defines "s' \<equiv> s\<lparr>subscriptions :=
    insort_key sub_id y (filter (\<lambda>w. sub_id w \<noteq> sub_id y) (subscriptions s))\<rparr>"
  shows "cancelSubscription (memberId x) (sportId x) now s = (Inr y, s')"
    and "set (subscriptions s') = insert y (set (subscriptions s) - {x})"
    and "length (subscriptions s') = length (subscriptions s)"
    and "pair_rows (memberId x) (sportId x) s' = [y]"
proof -
  have rows: "pair_rows (memberId x) (sportId x) s = [x]"
    by (rule pair_rows_unique [OF c x])
  have only: "w = x"
    if "w \<in> set (subscriptions s)" "memberId w = memberId x" "sportId w = sportId x" for w
    using that rows pair_rows_mem [of w "memberId x" "sportId x" s] by simp
  have ok: "\<not> (\<exists>w \<in> set (subscriptions s). sub_id w \<noteq> sub_id y \<and> subscriptions_unique w y)"
    using only by (auto simp: subscriptions_unique_def by_member_sport_def y_def)
  show "cancelSubscription (memberId x) (sportId x) now s = (Inr y, s')"
    using o ok
    by (simp add: cancelSubscription_def getSubscription_rows rows ensureDB_def store_put_def
        y_def s'_def Let_def)
  from c have d: "distinct (map sub_id (subscriptions s))" by (simp add: consistent_def)
  have key: "w = x" if "w \<in> set (subscriptions s)" "sub_id w = sub_id x" for w
    using d that x by (meson distinct_map inj_onD)
  have idy: "sub_id y = sub_id x" by (simp add: y_def)
  have rest: "filter (\<lambda>w. sub_id w \<noteq> sub_id x) (subscriptions s)
    = filter (\<lambda>w. w \<noteq> x) (subscriptions s)"
  proof (rule filter_cong [OF refl])
    fix w assume "w \<in> set (subscriptions s)"
    then show "(sub_id w \<noteq> sub_id x) = (w \<noteq> x)"
      using key [of w] by auto
  qed
  have subs': "subscriptions s' = insort_key sub_id y (filter (\<lambda>w. w \<noteq> x) (subscriptions s))"
    by (simp add: s'_def idy rest)
  show "set (subscriptions s') = insert y (set (subscriptions s) - {x})"
    by (auto simp: subs' set_insort_key)
  from d have dx: "distinct (subscriptions s)" by (simp add: distinct_map)
  show "length (subscriptions s') = length (subscriptions s)"
    using length_filter_other [OF dx x] by (simp add: subs')
  let ?P = "\<lambda>w. memberId w = memberId x \<and> sportId w = sportId x"
  have e: "filter ?P (filter (\<lambda>w. w \<noteq> x) (subscriptions s)) = []"
    using only by (auto simp: filter_empty_conv)
  have "filter ?P (insort_key sub_id y (filter (\<lambda>w. w \<noteq> x) (subscriptions s))) = [y]"
    by (rule filter_insort_single) (simp add: y_def, rule e)
  then show "pair_rows (memberId x) (sportId x) s' = [y]"
    by (simp only: pair_rows_def subs')
qed

text \<open>
  C9.  On an initialised service whose stores are consistent, cancelling a
  pair whose row is already cancelled succeeds: the call returns the row with
  the status \<^verbatim>\<open>cancelled\<close> and \<^verbatim>\<open>updatedAt\<close> set to the date of the call, every
  other field as it was, and that row is then the only row of the pair.
\<close>

theorem cancel_cancelled:
  assumes "db_open s" and "consistent s" and "x \<in> set (subscriptions s)"
    and "memberId x = m" and "sportId x = sp" and "sub_status x = Cancelled"
  shows "\<exists>s'. cancelSubscription m sp now s = (Inr (x\<lparr>sub_updatedAt := now\<rparr>), s') \<and>
           sub_status (x\<lparr>sub_updatedAt := now\<rparr>) = Cancelled \<and>
           sub_updatedAt (x\<lparr>sub_updatedAt := now\<rparr>) = now \<and>
           pair_rows m sp s' = [x\<lparr>sub_updatedAt := now\<rparr>]"
proof -
  have "x\<lparr>sub_status := Cancelled, sub_updatedAt := now\<rparr> = x\<lparr>sub_updatedAt := now\<rparr>"
    using assms(6) by simp
  with cancel_row(1,4) [OF assms(1-3), of now] assms(4-6) show ?thesis
    by auto
qed

theorem cancel_cancelled_witness:
  "db_open club4 \<and> consistent club4 \<and> row_cancelled \<in> set (subscriptions club4) \<and>
   memberId row_cancelled = ''m1'' \<and> sportId row_cancelled = ''s1'' \<and>
   sub_status row_cancelled = Cancelled \<and>
   (\<exists>s'. cancelSubscription ''m1'' ''s1'' 50 club4
            = (Inr (row_cancelled\<lparr>sub_updatedAt := 50\<rparr>), s') \<and>
          pair_rows ''m1'' ''s1'' s' = [row_cancelled\<lparr>sub_updatedAt := 50\<rparr>])"
proof -
  have o: "db_open club4" by (simp add: club4_eq)
  have c: "consistent club4" by (simp add: club4_eq consistent_def)
  have x: "row_cancelled \<in> set (subscriptions club4)" by (simp add: club4_eq)
  have m: "memberId row_cancelled = ''m1''" by (simp add: row_cancelled_def)
  have sp: "sportId row_cancelled = ''s1''" by (simp add: row_cancelled_def)
  have st: "sub_status row_cancelled = Cancelled" by (simp add: row_cancelled_def)
  from cancel_cancelled [OF o c x m sp st, of 50] o c x m sp st show ?thesis
    by blast
qed

subsection \<open>Consistency of the stores in every reachable state\<close>

lemma distinct_map_insort:
  "distinct (map g (insort_key f x xs)) \<longleftrightarrow> g x \<notin> g ` set xs \<and> distinct (map g xs)"
  by (induction xs) (auto simp: set_insort_key)

lemma store_add_keys:
  assumes "store_add key u v xs = Inr ys" and "sorted (map key xs)" and "distinct (map key xs)"
  shows "sorted (map key ys) \<and> distinct (map key ys)"
proof -
  from assms(1) have ys: "ys = insort_key key v xs" and "\<forall>w \<in> set xs. key w \<noteq> key v"
    by (auto simp: store_add_def split: if_splits)
  then have "key v \<notin> key ` set xs" by (auto simp: image_iff)
  with ys assms(2,3) show ?thesis
    by (simp add: sorted_insort_key distinct_map_insort)
qed

lemma store_add_index:
  assumes "store_add key u v xs = Inr ys" and "\<And>w. u w v \<longleftrightarrow> ix w = ix v"
    and "distinct (map ix xs)"
  shows "distinct (map ix ys)"
proof -
  from assms(1) have ys: "ys = insort_key key v xs" and "\<forall>w \<in> set xs. \<not> u w v"
    by (auto simp: store_add_def split: if_splits)
  with assms(2) have "ix v \<notin> ix ` set xs" by (auto simp: image_iff)
  with ys assms(3) show ?thesis
    by (simp add: distinct_map_insort)
qed

lemma store_put_keys:
  assumes "store_put key u v xs = Inr ys" and "sorted (map key xs)" and "distinct (map key xs)"
  shows "sorted (map key ys) \<and> distinct (map key ys)"
proof -
  let ?rest = "filter (\<lambda>w. key w \<noteq> key v) xs"
  from assms(1) have ys: "ys = insort_key key v ?rest"
    by (auto simp: store_put_def split: if_splits)
  have "key v \<notin> key ` set ?rest" by (auto simp: image_iff)
  moreover have "sorted (map key ?rest)" using assms(2) by (rule sorted_filter)
  moreover have "distinct (map key ?rest)" using assms(3) by (rule distinct_map_filter)
  ultimately show ?thesis using ys
    by (simp add: sorted_insort_key distinct_map_insort)
qed

lemma store_put_index:
  assumes "store_put key u v xs = Inr ys" and "\<And>w. u w v \<longleftrightarrow> ix w = ix v"
    and "distinct (map ix xs)"
  shows "distinct (map ix ys)"
proof -
  let ?rest = "filter (\<lambda>w. key w \<noteq> key v) xs"
  from assms(1) have ys: "ys = insort_key key v ?rest"
    and "\<forall>w \<in> set xs. key w \<noteq> key v \<longrightarrow> \<not> u w v"
    by (auto simp: store_put_def split: if_splits)
  with assms(2) have "ix v \<notin> ix ` set ?rest" by (auto simp: image_iff)
  moreover have "distinct (map ix ?rest)" using assms(3) by (rule distinct_map_filter)
  ultimately show ?thesis using ys
    by (simp add: distinct_map_insort)
qed

lemma store_delete_keys:
  "sorted (map key xs) \<Longrightarrow> distinct (map ix xs) \<Longrightarrow>
   sorted (map key (store_delete key k xs)) \<and> distinct (map ix (store_delete key k xs))"
  by (simp add: store_delete_def sorted_filter distinct_map_filter)

lemma addSport_consistent: "consistent s \<Longrightarrow> consistent (snd (addSport sport uuid now s))"
  by (auto simp: addSport_def consistent_def Let_def dest: store_add_keys split: sum.splits)

lemma updateSport_consistent: "consistent s \<Longrightarrow> consistent (snd (updateSport k updates now s))"
  by (auto simp: updateSport_def consistent_def Let_def dest: store_put_keys
      split: sum.splits option.splits)

lemma deleteSport_consistent: "consistent s \<Longrightarrow> consistent (snd (deleteSport k s))"
  by (auto simp: deleteSport_def consistent_def store_delete_keys split: sum.splits)

lemma addMember_consistent:
  assumes "consistent s"
  shows "consistent (snd (addMember member uuid now s))"
proof (cases "addMember member uuid now s")
  case (Pair r s')
  show ?thesis
  proof (cases r)
    case (Inl e)
    with Pair have "s' = s"
      by (auto simp: addMember_def Let_def split: sum.splits)
    with assms Pair show ?thesis by simp
  next
    case (Inr v)
    with Pair obtain ys where add: "store_add member_id members_unique v (members s) = Inr ys"
      and s': "s' = s\<lparr>members := ys\<rparr>"
      by (auto simp: addMember_def Let_def split: sum.splits)
    from assms have "sorted (map member_id (members s))" "distinct (map member_id (members s))"
      "distinct (map email (members s))"
      by (simp_all add: consistent_def)
    with store_add_keys [OF add] store_add_index [OF add, of email]
    have "sorted (map member_id ys)" "distinct (map member_id ys)" "distinct (map email ys)"
      by (simp_all add: members_unique_def)
    with assms s' Pair show ?thesis by (simp add: consistent_def)
  qed
qed

lemma updateMember_consistent:
  assumes "consistent s"
  shows "consistent (snd (updateMember k updates now s))"
proof (cases "updateMember k updates now s")
  case (Pair r s')
  show ?thesis
  proof (cases r)
    case (Inl e)
    with Pair have "s' = s"
      by (auto simp: updateMember_def Let_def split: sum.splits option.splits)
    with assms Pair show ?thesis by simp
  next
    case (Inr v)
    with Pair obtain ys where put: "store_put member_id members_unique v (members s) = Inr ys"
      and s': "s' = s\<lparr>members := ys\<rparr>"
      by (auto simp: updateMember_def Let_def split: sum.splits option.splits)
    from assms have "sorted (map member_id (members s))" "distinct (map member_id (members s))"
      "distinct (map email (members s))"
      by (simp_all add: consistent_def)
    with store_put_keys [OF put] store_put_index [OF put, of email]
    have "sorted (map member_id ys)" "distinct (map member_id ys)" "distinct (map email ys)"
      by (simp_all add: members_unique_def)
    with assms s' Pair show ?thesis by (simp add: consistent_def)
  qed
qed

lemma deleteMember_consistent: "consistent s \<Longrightarrow> consistent (snd (deleteMember k s))"
  by (auto simp: deleteMember_def consistent_def store_delete_keys split: sum.splits)

lemma subscribe_consistent:
  assumes "consistent s"
  shows "consistent (snd (subscribeMemberToSport m sp uuid now s))"
proof (cases "subscribeMemberToSport m sp uuid now s")
  case (Pair r s')
  show ?thesis
  proof (cases r)
    case (Inl e)
    with Pair have "s' = s"
      by (auto simp: subscribeMemberToSport_def Let_def split: sum.splits if_splits)
    with assms Pair show ?thesis by simp
  next
    case (Inr v)
    with Pair obtain ys
      where add: "store_add sub_id subscriptions_unique v (subscriptions s) = Inr ys"
      and s': "s' = s\<lparr>subscriptions := ys\<rparr>"
      by (auto simp: subscribeMemberToSport_def Let_def split: sum.splits if_splits)
    from assms have "sorted (map sub_id (subscriptions s))"
      "distinct (map sub_id (subscriptions s))"
      "distinct (map by_member_sport (subscriptions s))"
      by (simp_all add: consistent_def)
    with store_add_keys [OF add] store_add_index [OF add, of by_member_sport]
    have "sorted (map sub_id ys)" "distinct (map sub_id ys)" "distinct (map by_member_sport ys)"
      by (simp_all add: subscriptions_unique_def)
    with assms s' Pair show ?thesis by (simp add: consistent_def)
  qed
qed

lemma cancel_consistent:
  assumes "consistent s"
  shows "consistent (snd (cancelSubscription m sp now s))"
proof (cases "cancelSubscription m sp now s")
  case (Pair r s')
  show ?thesis
  proof (cases r)
    case (Inl e)
    with Pair have "s' = s"
      by (auto simp: cancelSubscription_def Let_def split: sum.splits option.splits)
    with assms Pair show ?thesis by simp
  next
    case (Inr v)
    with Pair obtain ys
      where put: "store_put sub_id subscriptions_unique v (subscriptions s) = Inr ys"
      and s': "s' = s\<lparr>subscriptions := ys\<rparr>"
      by (auto simp: cancelSubscription_def Let_def split: sum.splits option.splits)
    from assms have "sorted (map sub_id (subscriptions s))"
      "distinct (map sub_id (subscriptions s))"
      "distinct (map by_member_sport (subscriptions s))"
      by (simp_all add: consistent_def)
    with store_put_keys [OF put] store_put_index [OF put, of by_member_sport]
    have "sorted (map sub_id ys)" "distinct (map sub_id ys)" "distinct (map by_member_sport ys)"
      by (simp_all add: subscriptions_unique_def)
    with assms s' Pair show ?thesis by (simp add: consistent_def)
  qed
qed

lemma clearAllData_consistent: "consistent s \<Longrightarrow> consistent (snd (clearAllData s))"
  by (auto simp: clearAllData_def consistent_def ensureDB_def)

lemma close_consistent: "consistent s \<Longrightarrow> consistent (close s)"
  by (simp add: close_def consistent_def)

lemma seed_loop_consistent:
  "consistent s \<Longrightarrow> consistent (snd (seed_loop draw n sps s))"
proof (induction sps arbitrary: n s)
  case Nil
  then show ?case by simp
next
  case (Cons sp sps)
  from addSport_consistent [OF Cons.prems, of sp "fst (draw n)" "snd (draw n)"]
  show ?case
    by (cases "addSport sp (fst (draw n)) (snd (draw n)) s")
       (auto split: sum.splits intro: Cons.IH)
qed

lemma init_consistent: "consistent s \<Longrightarrow> consistent (snd (init draw s))"
proof -
  assume "consistent s"
  then have "consistent (s\<lparr>db_open := True\<rparr>)" by (simp add: consistent_def)
  then show ?thesis
    by (simp add: init_def seedInitialData_def getAllSports_def ensureDB_def seed_loop_consistent)
qed

lemma exec_consistent: "consistent s \<Longrightarrow> consistent (snd (exec op s))"
  by (cases op)
     (simp_all add: writes_def reads_def init_consistent addSport_consistent
        updateSport_consistent deleteSport_consistent addMember_consistent
        updateMember_consistent deleteMember_consistent subscribe_consistent
        cancel_consistent clearAllData_consistent close_consistent)

lemma reachable_consistent: "reachable s \<Longrightarrow> consistent s"
proof (induction rule: reachable.induct)
  case start
  show ?case by (simp add: initial_def consistent_def)
next
  case (call s op)
  then show ?case by (simp add: exec_consistent)
qed

subsection \<open>The small club is reachable\<close>

lemma seed_loop_open: "db_open (snd (seed_loop draw n sps s)) = db_open s"
proof (induction sps arbitrary: n s)
  case Nil
  show ?case by simp
next
  case (Cons sp sps)
  have "db_open (snd (addSport sp (fst (draw n)) (snd (draw n)) s)) = db_open s"
    by (auto simp: addSport_def Let_def split: sum.splits)
  then show ?case
    by (cases "addSport sp (fst (draw n)) (snd (draw n)) s") (auto split: sum.splits simp: Cons.IH)
qed

lemma init_open: "db_open (snd (init draw s))"
  by (simp add: init_def seedInitialData_def getAllSports_def ensureDB_def seed_loop_open)

lemma clearAllData_open: "db_open s \<Longrightarrow> snd (clearAllData s) = club0"
  by (cases s) (simp add: clearAllData_def ensureDB_def club0_def)

lemma reachable_club0: "reachable club0"
proof -
  let ?s = "snd (exec (Init (\<lambda>n. ([], 0))) initial)"
  have "reachable ?s" by (rule reachable.call [OF reachable.start])
  then have "reachable (snd (exec ClearAllData ?s))" by (rule reachable.call)
  moreover have "snd (exec ClearAllData ?s) = club0"
    by (simp add: writes_def clearAllData_open init_open)
  ultimately show ?thesis by simp
qed

lemma reachable_club1: "reachable club1"
  using reachable.call [OF reachable_club0, of "AddSport football ''s1'' 10"]
  by (simp add: writes_def club1_def)

lemma reachable_club2: "reachable club2"
  using reachable.call [OF reachable_club1, of "AddMember ada ''m1'' 20"]
  by (simp add: writes_def club2_def)

lemma reachable_club3: "reachable club3"
  using reachable.call [OF reachable_club2, of "SubscribeMemberToSport ''m1'' ''s1'' ''u1'' 30"]
  by (simp add: writes_def club3_def)

lemma reachable_club4: "reachable club4"
  using reachable.call [OF reachable_club3, of "CancelSubscription ''m1'' ''s1'' 40"]
  by (simp add: writes_def club4_def)

lemma reachable_club5: "reachable club5"
  using reachable.call [OF reachable_club3, of "DeleteMember ''m1''"]
  by (simp add: writes_def club5_def)

lemma reachable_club6: "reachable club6"
  using reachable.call [OF reachable_club3, of "DeleteSport ''s1''"]
  by (simp add: writes_def club6_def)

subsection \<open>The joins\<close>

lemma promise_all_Inr: "promise_all (map (\<lambda>x. Inr (g x)) xs) = Inr (map g xs)"
  by (induction xs) auto

lemma length_filter_Boolean: "length (filter_Boolean xs) \<le> length xs"
  by (induction xs rule: filter_Boolean.induct) auto

lemma store_get_Some: "store_get key k xs = Some v \<Longrightarrow> v \<in> set xs \<and> key v = k"
  by (auto simp: store_get_def find_Some_iff)

lemma getSport_open: "db_open s \<Longrightarrow> getSport k s = Inr (store_get sport_id k (sports s))"
  by (simp add: getSport_def ensureDB_def)

lemma getMember_open: "db_open s \<Longrightarrow> getMember k s = Inr (store_get member_id k (members s))"
  by (simp add: getMember_def ensureDB_def)

lemma getSport_Some: "getSport k s = Inr (Some v) \<Longrightarrow> db_open s \<and> store_get sport_id k (sports s) = Some v"
  by (auto simp: getSport_def ensureDB_def split: if_splits)

lemma getMember_Some: "getMember k s = Inr (Some v) \<Longrightarrow> db_open s \<and> store_get member_id k (members s) = Some v"
  by (auto simp: getMember_def ensureDB_def split: if_splits)

lemma getMemberWithSports_open:
  assumes "db_open s"
  shows "getMemberWithSports m s =
     Inr (case store_get member_id m (members s) of None \<Rightarrow> None
          | Some member \<Rightarrow> Some (member.extend member
              \<lparr>mws_sports = filter_Boolean
                  (map (\<lambda>sub. store_get sport_id (sportId sub) (sports s)) (active_of_member m s)),
               mws_subscriptions = active_of_member m s\<rparr>))"
  using assms
  by (simp add: getMemberWithSports_def getMember_open getMemberSubscriptions_def ensureDB_def
      getSport_open store_getAllFromIndex_def promise_all_Inr active_of_member_def Let_def
      split: option.splits)

lemma getSportWithMembers_open:
  assumes "db_open s"
  shows "getSportWithMembers sp s =
     Inr (case store_get sport_id sp (sports s) of None \<Rightarrow> None
          | Some sport \<Rightarrow> Some (sport.extend sport
              \<lparr>swm_members = filter_Boolean
                  (map (\<lambda>sub. store_get member_id (memberId sub) (members s)) (active_of_sport sp s)),
               swm_subscriptions = active_of_sport sp s,
               memberCount = length (active_of_sport sp s)\<rparr>))"
  using assms
  by (simp add: getSportWithMembers_def getSport_open getSportSubscriptions_def ensureDB_def
      getMember_open store_getAllFromIndex_def promise_all_Inr active_of_sport_def Let_def
      split: option.splits)

lemma in_filter_Boolean_map:
  "v \<in> set (filter_Boolean (map g subs)) \<longleftrightarrow> (\<exists>sub \<in> set subs. g sub = Some v)"
proof (induction subs)
  case Nil
  then show ?case by simp
next
  case (Cons a subs)
  then show ?case by (cases "g a") auto
qed

lemma found_ids:
  "k \<in> key ` set (filter_Boolean (map (\<lambda>sub. store_get key (ref sub) xs) subs))
     \<longleftrightarrow> (\<exists>v \<in> set xs. key v = k) \<and> (\<exists>sub \<in> set subs. ref sub = k)"
    (is "?L \<longleftrightarrow> ?R")
proof
  assume ?L
  then obtain v where "v \<in> set (filter_Boolean (map (\<lambda>sub. store_get key (ref sub) xs) subs))"
    and kv: "key v = k"
    by blast
  then obtain sub where sub: "sub \<in> set subs" and g: "store_get key (ref sub) xs = Some v"
    unfolding in_filter_Boolean_map by blast
  from store_get_Some [OF g] have "v \<in> set xs" and "key v = ref sub" by simp_all
  with kv sub show ?R by metis
next
  assume ?R
  then obtain w sub where w: "w \<in> set xs" "key w = k" and sub: "sub \<in> set subs" "ref sub = k"
    by blast
  from w have "store_get key k xs \<noteq> None"
    by (auto simp: store_get_def find_None_iff)
  then obtain v where g: "store_get key k xs = Some v" by blast
  from store_get_Some [OF g] have kv: "key v = k" by simp
  from g sub have "v \<in> set (filter_Boolean (map (\<lambda>sub. store_get key (ref sub) xs) subs))"
    unfolding in_filter_Boolean_map by blast
  with kv show ?L by blast
qed

lemma dangling_count:
  "getSportWithMembers ''s1'' club5 = Inr (Some (sport.extend stored_football
     \<lparr>swm_members = [], swm_subscriptions = [row_active], memberCount = 1\<rparr>))"
  by (simp add: getSportWithMembers_def getSport_def getSportSubscriptions_def getMember_def
      club5_eq row_defs store_defs)

lemma dangling_sport:
  "getMemberWithSports ''m1'' club6 = Inr (Some (member.extend stored_ada
     \<lparr>mws_sports = [], mws_subscriptions = [row_active]\<rparr>))"
  by (simp add: getMemberWithSports_def getSport_def getMemberSubscriptions_def getMember_def
      club6_eq row_defs store_defs)

subsection \<open>Cancelling an active subscription\<close>

text \<open>
  C7.  On an initialised service whose stores are consistent, cancelling a
  pair whose row \<open>x\<close> is active succeeds and returns \<open>x\<close> with the status
  \<^verbatim>\<open>cancelled\<close> and \<^verbatim>\<open>updatedAt\<close> set to the date of the call.  The row stays in
  the store in place of \<open>x\<close>: the other rows and the number of rows are as
  before, and it is the only row of the pair.  \<^verbatim>\<open>getMemberWithSports\<close> for the
  member then returns no sport with the id of the cancelled sport, and no
  subscription to it.
\<close>

theorem cancel_active:
  assumes "db_open s" and "consistent s" and "x \<in> set (subscriptions s)"
    and "memberId x = m" and "sportId x = sp" and "sub_status x = Active"
  shows "\<exists>s'. cancelSubscription m sp now s
                 = (Inr (x\<lparr>sub_status := Cancelled, sub_updatedAt := now\<rparr>), s') \<and>
           set (subscriptions s')
                 = insert (x\<lparr>sub_status := Cancelled, sub_updatedAt := now\<rparr>) (set (subscriptions s) - {x}) \<and>
           length (subscriptions s') = length (subscriptions s) \<and>
           pair_rows m sp s' = [x\<lparr>sub_status := Cancelled, sub_updatedAt := now\<rparr>] \<and>
           (\<exists>v. getMemberWithSports m s' = Inr v \<and>
              (\<forall>r. v = Some r \<longrightarrow> sp \<notin> sport_id ` set (mws_sports r) \<and>
                                   sp \<notin> sportId ` set (mws_subscriptions r)))"
proof -
  define y where "y = x\<lparr>sub_status := Cancelled, sub_updatedAt := now\<rparr>"
  define s' where "s' = s\<lparr>subscriptions :=
    insort_key sub_id y (filter (\<lambda>w. sub_id w \<noteq> sub_id y) (subscriptions s))\<rparr>"
  note r = cancel_row [OF assms(1-3), of now, folded y_def, folded s'_def]
  have o: "db_open s'" using assms(1) by (simp add: s'_def)
  have none: "\<not> (\<exists>sub \<in> set (active_of_member m s'). sportId sub = sp)"
  proof
    assume "\<exists>sub \<in> set (active_of_member m s'). sportId sub = sp"
    then obtain sub where "sub \<in> set (subscriptions s')" "memberId sub = m" "sportId sub = sp"
      "sub_status sub = Active"
      by (auto simp: active_of_member_def store_getAllFromIndex_def)
    then have "sub \<in> set (pair_rows m sp s')" "sub_status sub = Active"
      by (simp_all add: pair_rows_mem)
    with r(4) assms(4,5) show False by (simp add: y_def)
  qed
  have join: "\<exists>v. getMemberWithSports m s' = Inr v \<and>
              (\<forall>r. v = Some r \<longrightarrow> sp \<notin> sport_id ` set (mws_sports r) \<and>
                                   sp \<notin> sportId ` set (mws_subscriptions r))"
  proof (cases "store_get member_id m (members s')")
    case None
    then show ?thesis by (simp add: getMemberWithSports_open [OF o])
  next
    case (Some mem)
    have "sp \<notin> sport_id ` set (filter_Boolean
      (map (\<lambda>sub. store_get sport_id (sportId sub) (sports s')) (active_of_member m s')))"
      using none unfolding found_ids by blast
    moreover have "sp \<notin> sportId ` set (active_of_member m s')"
      using none by blast
    ultimately show ?thesis
      by (simp add: getMemberWithSports_open [OF o] Some member.extend_def)
  qed
  from r assms(4,5) join show ?thesis
    unfolding y_def by blast
qed

theorem cancel_active_witness:
  "db_open club3 \<and> consistent club3 \<and> row_active \<in> set (subscriptions club3) \<and>
   memberId row_active = ''m1'' \<and> sportId row_active = ''s1'' \<and>
   sub_status row_active = Active \<and>
   row_active\<lparr>sub_status := Cancelled, sub_updatedAt := 40\<rparr> = row_cancelled \<and>
   (\<exists>s'. cancelSubscription ''m1'' ''s1'' 40 club3 = (Inr row_cancelled, s') \<and>
      set (subscriptions s') = insert row_cancelled (set (subscriptions club3) - {row_active}) \<and>
      length (subscriptions s') = length (subscriptions club3) \<and>
      pair_rows ''m1'' ''s1'' s' = [row_cancelled] \<and>
      (\<exists>v. getMemberWithSports ''m1'' s' = Inr v \<and>
         (\<forall>r. v = Some r \<longrightarrow> ''s1'' \<notin> sport_id ` set (mws_sports r) \<and>
                              ''s1'' \<notin> sportId ` set (mws_subscriptions r))))"
proof -
  have o: "db_open club3" by (simp add: club3_eq)
  have c: "consistent club3" by (simp add: club3_eq consistent_def)
  have x: "row_active \<in> set (subscriptions club3)" by (simp add: club3_eq)
  have m: "memberId row_active = ''m1''" by (simp add: row_active_def)
  have sp: "sportId row_active = ''s1''" by (simp add: row_active_def)
  have st: "sub_status row_active = Active" by (simp add: row_active_def)
  have y: "row_active\<lparr>sub_status := Cancelled, sub_updatedAt := 40\<rparr> = row_cancelled"
    by (simp add: row_active_def row_cancelled_def)
  from cancel_active [OF o c x m sp st, of 40] o c x m sp st y show ?thesis
    by simp
qed

subsection \<open>Subscribing twice\<close>

lemma length_filter_key_le:
  "distinct (map f xs) \<Longrightarrow> length (filter (\<lambda>x. f x = k) xs) \<le> 1"
proof (induction xs)
  case Nil
  then show ?case by simp
next
  case (Cons a xs)
  show ?case
  proof (cases "f a = k")
    case True
    with Cons.prems have "\<forall>w \<in> set xs. f w \<noteq> k" by (auto simp: image_iff)
    then have "filter (\<lambda>x. f x = k) xs = []" by (simp add: filter_empty_conv)
    with True show ?thesis by simp
  next
    case False
    with Cons show ?thesis by simp
  qed
qed

lemma active_rows_le:
  assumes "consistent s"
  shows "length (active_rows m sp s) \<le> 1"
proof -
  from assms have "distinct (map by_member_sport (subscriptions s))"
    by (simp add: consistent_def)
  from length_filter_key_le [OF this, of "(m, sp)"]
  have "length (pair_rows m sp s) \<le> 1"
    by (simp add: pair_rows_def by_member_sport_def)
  moreover have "length (active_rows m sp s) \<le> length (pair_rows m sp s)"
    unfolding active_rows_def by (rule length_filter_le)
  ultimately show ?thesis by simp
qed

lemma subscribe_first:
  fixes s :: service and m sp uuid :: string and now :: date
  assumes o: "db_open s" and n: "pair_rows m sp s = []"
    and f: "uuid \<notin> sub_id ` set (subscriptions s)"
  defines "r \<equiv> \<lparr>sub_id = uuid, memberId = m, sportId = sp, subscriptionDate = now,
    sub_status = Active, sub_createdAt = now, sub_updatedAt = now\<rparr>"
  defines "s1 \<equiv> s\<lparr>subscriptions := insort_key sub_id r (subscriptions s)\<rparr>"
  shows "subscribeMemberToSport m sp uuid now s = (Inr r, s1)"
    and "pair_rows m sp s1 = [r]"
proof -
  from n have none: "\<forall>w \<in> set (subscriptions s). \<not> (memberId w = m \<and> sportId w = sp)"
    by (simp add: pair_rows_def filter_empty_conv)
  from f have fresh: "\<forall>w \<in> set (subscriptions s). sub_id w \<noteq> uuid"
    by (auto simp: image_iff)
  have add: "store_add sub_id subscriptions_unique r (subscriptions s)
    = Inr (insort_key sub_id r (subscriptions s))"
    using none fresh
    by (auto simp: store_add_def subscriptions_unique_def by_member_sport_def r_def)
  show "subscribeMemberToSport m sp uuid now s = (Inr r, s1)"
    using o add
    by (simp add: subscribeMemberToSport_def getSubscription_rows n ensureDB_def Let_def
        r_def [symmetric] s1_def)
  have "filter (\<lambda>x. memberId x = m \<and> sportId x = sp) (insort_key sub_id r (subscriptions s)) = [r]"
    by (rule filter_insort_single) (simp add: r_def, rule n [unfolded pair_rows_def])
  then show "pair_rows m sp s1 = [r]"
    by (simp add: pair_rows_def s1_def)
qed

text \<open>
  C2.  On an initialised service, when the pair has no row and the first call
  draws a UUID that is no key of the store, the first
  \<^verbatim>\<open>subscribeMemberToSport\<close> succeeds and the second, whatever it draws, throws
  \<^verbatim>\<open>Error('Member is already subscribed to this sport')\<close> and leaves the state
  as it was; the row of the first call is then the only row of the pair, and
  it is active.  In every reachable state a pair has at most one active row.
\<close>

theorem subscribe_twice:
  "(db_open s \<and> pair_rows m sp s = [] \<and> uuid1 \<notin> sub_id ` set (subscriptions s) \<longrightarrow>
      (\<exists>r s1. subscribeMemberToSport m sp uuid1 now1 s = (Inr r, s1) \<and>
         subscribeMemberToSport m sp uuid2 now2 s1
           = (Inl (Error ''Member is already subscribed to this sport''), s1) \<and>
         pair_rows m sp s1 = [r] \<and> active_rows m sp s1 = [r])) \<and>
   (reachable s \<longrightarrow> length (active_rows m sp s) \<le> 1)"
proof (intro conjI impI)
  assume a: "db_open s \<and> pair_rows m sp s = [] \<and> uuid1 \<notin> sub_id ` set (subscriptions s)"
  define r where "r = \<lparr>sub_id = uuid1, memberId = m, sportId = sp, subscriptionDate = now1,
    sub_status = Active, sub_createdAt = now1, sub_updatedAt = now1\<rparr>"
  define s1 where "s1 = s\<lparr>subscriptions := insort_key sub_id r (subscriptions s)\<rparr>"
  from a have o: "db_open s" and n: "pair_rows m sp s = []"
    and f: "uuid1 \<notin> sub_id ` set (subscriptions s)"
    by simp_all
  note first = subscribe_first [OF o n f, of now1, folded r_def, folded s1_def]
  have o1: "db_open s1" using o by (simp add: s1_def)
  have act: "sub_status r = Active" by (simp add: r_def)
  have second: "subscribeMemberToSport m sp uuid2 now2 s1
    = (Inl (Error ''Member is already subscribed to this sport''), s1)"
    using o1 act
    by (simp add: subscribeMemberToSport_def getSubscription_rows first(2) ensureDB_def)
  have "active_rows m sp s1 = [r]"
    using act by (simp add: active_rows_def first(2))
  with first second
  show "\<exists>r s1. subscribeMemberToSport m sp uuid1 now1 s = (Inr r, s1) \<and>
         subscribeMemberToSport m sp uuid2 now2 s1
           = (Inl (Error ''Member is already subscribed to this sport''), s1) \<and>
         pair_rows m sp s1 = [r] \<and> active_rows m sp s1 = [r]"
    by blast
next
  assume "reachable s"
  then have "consistent s" by (rule reachable_consistent)
  then show "length (active_rows m sp s) \<le> 1" by (rule active_rows_le)
qed

theorem subscribe_twice_witness:
  "(db_open club2 \<and> pair_rows ''m1'' ''s1'' club2 = [] \<and>
    ''u1'' \<notin> sub_id ` set (subscriptions club2)) \<and>
   subscribeMemberToSport ''m1'' ''s1'' ''u1'' 30 club2 = (Inr row_active, club3) \<and>
   subscribeMemberToSport ''m1'' ''s1'' ''u2'' 31 club3
     = (Inl (Error ''Member is already subscribed to this sport''), club3) \<and>
   active_rows ''m1'' ''s1'' club3 = [row_active] \<and>
   reachable club3 \<and> length (active_rows ''m1'' ''s1'' club3) \<le> 1"
proof -
  have h: "db_open club2 \<and> pair_rows ''m1'' ''s1'' club2 = [] \<and>
    ''u1'' \<notin> sub_id ` set (subscriptions club2)"
    by (simp add: club2_eq pair_rows_def)
  have a: "subscribeMemberToSport ''m1'' ''s1'' ''u1'' 30 club2 = (Inr row_active, club3)"
    by (simp add: club3_eq club2_eq row_defs subscribeMemberToSport_def getSubscription_def
        store_defs)
  note t = subscribe_twice [where s = club2 and m = "''m1''" and sp = "''s1''"
      and ?uuid1.0 = "''u1''" and ?now1.0 = 30 and ?uuid2.0 = "''u2''" and ?now2.0 = 31]
  from t h a
  have b: "subscribeMemberToSport ''m1'' ''s1'' ''u2'' 31 club3
     = (Inl (Error ''Member is already subscribed to this sport''), club3) \<and>
     active_rows ''m1'' ''s1'' club3 = [row_active]"
    by auto
  have r: "reachable club3" by (rule reachable_club3)
  from subscribe_twice [where s = club3 and m = "''m1''" and sp = "''s1''"] r
  have "length (active_rows ''m1'' ''s1'' club3) \<le> 1" by blast
  with h a b r show ?thesis by simp
qed

subsection \<open>Calls that throw\<close>











lemma seed_loop_succeeds:
  assumes "db_open s"
    and "inj_on (\<lambda>k. fst (draw k)) {n..<n + length sps}"
    and "\<forall>k. n \<le> k \<and> k < n + length sps \<longrightarrow> fst (draw k) \<notin> sport_id ` set (sports s)"
  shows "fst (seed_loop draw n sps s) = Inr ()"
  using assms
proof (induction sps arbitrary: n s)
  case Nil
  then show ?case by simp
next
  case (Cons sp sps)
  let ?v = "\<lparr>name = name sp, description = description sp, category = category sp,
    maxMembers = maxMembers sp, sport_id = fst (draw n), sport_createdAt = snd (draw n),
    sport_updatedAt = snd (draw n)\<rparr>"
  let ?s = "s\<lparr>sports := insort_key sport_id ?v (sports s)\<rparr>"
  from Cons.prems(3) have "fst (draw n) \<notin> sport_id ` set (sports s)"
    by simp
  then have "\<forall>w \<in> set (sports s). sport_id w \<noteq> fst (draw n)"
    by (auto simp: image_iff)
  with Cons.prems(1) have add: "addSport sp (fst (draw n)) (snd (draw n)) s = (Inr ?v, ?s)"
    by (simp add: addSport_def ensureDB_def store_add_def sports_unique_def Let_def)
  have o: "db_open ?s" using Cons.prems(1) by simp
  have sub: "{Suc n..<Suc n + length sps} \<subseteq> {n..<n + length (sp # sps)}"
    by auto
  have d: "inj_on (\<lambda>k. fst (draw k)) {Suc n..<Suc n + length sps}"
    by (rule inj_on_subset [OF Cons.prems(2) sub])
  have "\<forall>k. Suc n \<le> k \<and> k < Suc n + length sps \<longrightarrow>
    fst (draw k) \<notin> sport_id ` set (sports ?s)"
  proof (intro allI impI)
    fix k assume k: "Suc n \<le> k \<and> k < Suc n + length sps"
    with Cons.prems(3) have old: "fst (draw k) \<notin> sport_id ` set (sports s)"
      by simp
    from k have "k \<in> {n..<n + length (sp # sps)}" "n \<in> {n..<n + length (sp # sps)}" "k \<noteq> n"
      by auto
    with Cons.prems(2) have "fst (draw k) \<noteq> fst (draw n)"
      by (auto dest: inj_onD)
    with old show "fst (draw k) \<notin> sport_id ` set (sports ?s)"
      by (simp add: set_insort_key)
  qed
  from Cons.IH [OF o d this] add show ?case by simp
qed

lemma init_succeeds:
  assumes "distinct (map (\<lambda>n. fst (draw n)) [0..<length initialSports])"
  shows "fst (init draw s) = Inr ()"
proof (cases "sports s = []")
  case True
  from assms have inj: "inj_on (\<lambda>k. fst (draw k)) {0..<0 + length initialSports}"
    by (simp add: distinct_map)
  have "fst (seed_loop draw 0 initialSports (s\<lparr>db_open := True\<rparr>)) = Inr ()"
    by (rule seed_loop_succeeds [OF _ inj]) (simp_all add: True)
  with True show ?thesis
    by (simp add: init_def seedInitialData_def getAllSports_def ensureDB_def)
next
  case False
  then show ?thesis
    by (simp add: init_def seedInitialData_def getAllSports_def ensureDB_def)
qed










subsection \<open>Counting the members of a sport\<close>

text \<open>
  C10.  For a sport that \<^verbatim>\<open>getSport\<close> finds, \<^verbatim>\<open>getSportWithMembers\<close> returns a
  \<^verbatim>\<open>memberCount\<close> equal to the number of active rows of the sport, and a list of
  members that is not longer: an id occurs in it exactly when a member of
  the store has it and an active row of the sport refers to it, so a row
  whose member is gone counts and adds no member.  For a member that
  \<^verbatim>\<open>getMember\<close> finds, \<^verbatim>\<open>getMemberWithSports\<close> likewise lists the sports of the
  store that an active row of the member refers to.  Both inequalities are
  strict in some reachable state: after the member (the sport) of an active
  row has been deleted.
\<close>

theorem memberCount_counts_active_rows:
  "(getSport sp s = Inr (Some sport) \<longrightarrow>
      (\<exists>r. getSportWithMembers sp s = Inr (Some r) \<and>
           memberCount r = length (filter (\<lambda>x. sportId x = sp \<and> sub_status x = Active)
                                     (subscriptions s)) \<and>
           length (swm_members r) \<le> memberCount r \<and>
           (\<forall>k. k \<in> member_id ` set (swm_members r) \<longleftrightarrow>
                  (\<exists>v \<in> set (members s). member_id v = k) \<and>
                  (\<exists>x \<in> set (subscriptions s).
                      sportId x = sp \<and> sub_status x = Active \<and> memberId x = k)))) \<and>
   (getMember m s = Inr (Some member) \<longrightarrow>
      (\<exists>r. getMemberWithSports m s = Inr (Some r) \<and>
           length (mws_sports r) \<le> length (mws_subscriptions r) \<and>
           (\<forall>k. k \<in> sport_id ` set (mws_sports r) \<longleftrightarrow>
                  (\<exists>v \<in> set (sports s). sport_id v = k) \<and>
                  (\<exists>x \<in> set (subscriptions s).
                      memberId x = m \<and> sub_status x = Active \<and> sportId x = k)))) \<and>
   (\<exists>s sp r. reachable s \<and> getSportWithMembers sp s = Inr (Some r) \<and>
        length (swm_members r) < memberCount r) \<and>
   (\<exists>s m r. reachable s \<and> getMemberWithSports m s = Inr (Some r) \<and>
        length (mws_sports r) < length (mws_subscriptions r))"
proof (intro conjI impI)
  assume "getSport sp s = Inr (Some sport)"
  then have o: "db_open s" and g: "store_get sport_id sp (sports s) = Some sport"
    by (simp_all add: getSport_Some)
  let ?act = "active_of_sport sp s"
  let ?found = "filter_Boolean (map (\<lambda>sub. store_get member_id (memberId sub) (members s)) ?act)"
  let ?r = "sport.extend sport
    \<lparr>swm_members = ?found, swm_subscriptions = ?act, memberCount = length ?act\<rparr>"
  have 1: "getSportWithMembers sp s = Inr (Some ?r)"
    by (simp add: getSportWithMembers_open [OF o] g)
  have 2: "memberCount ?r = length (filter (\<lambda>x. sportId x = sp \<and> sub_status x = Active)
                                     (subscriptions s))"
    by (simp add: sport.extend_def active_of_sport_def store_getAllFromIndex_def)
  have "length ?found \<le> length ?act"
    using length_filter_Boolean [of "map (\<lambda>sub. store_get member_id (memberId sub) (members s)) ?act"]
    by simp
  then have 3: "length (swm_members ?r) \<le> memberCount ?r"
    by (simp add: sport.extend_def)
  have 4: "\<forall>k. k \<in> member_id ` set (swm_members ?r) \<longleftrightarrow>
                  (\<exists>v \<in> set (members s). member_id v = k) \<and>
                  (\<exists>x \<in> set (subscriptions s).
                      sportId x = sp \<and> sub_status x = Active \<and> memberId x = k)"
  proof
    fix k
    have "(\<exists>sub \<in> set ?act. memberId sub = k) \<longleftrightarrow>
      (\<exists>x \<in> set (subscriptions s). sportId x = sp \<and> sub_status x = Active \<and> memberId x = k)"
      by (auto simp: active_of_sport_def store_getAllFromIndex_def)
    then show "k \<in> member_id ` set (swm_members ?r) \<longleftrightarrow>
                  (\<exists>v \<in> set (members s). member_id v = k) \<and>
                  (\<exists>x \<in> set (subscriptions s).
                      sportId x = sp \<and> sub_status x = Active \<and> memberId x = k)"
      using found_ids [of k member_id memberId "members s" ?act]
      by (simp add: sport.extend_def)
  qed
  from 1 2 3 4
  show "\<exists>r. getSportWithMembers sp s = Inr (Some r) \<and>
           memberCount r = length (filter (\<lambda>x. sportId x = sp \<and> sub_status x = Active)
                                     (subscriptions s)) \<and>
           length (swm_members r) \<le> memberCount r \<and>
           (\<forall>k. k \<in> member_id ` set (swm_members r) \<longleftrightarrow>
                  (\<exists>v \<in> set (members s). member_id v = k) \<and>
                  (\<exists>x \<in> set (subscriptions s).
                      sportId x = sp \<and> sub_status x = Active \<and> memberId x = k))"
    by blast
next
  assume "getMember m s = Inr (Some member)"
  then have o: "db_open s" and g: "store_get member_id m (members s) = Some member"
    by (simp_all add: getMember_Some)
  let ?act = "active_of_member m s"
  let ?found = "filter_Boolean (map (\<lambda>sub. store_get sport_id (sportId sub) (sports s)) ?act)"
  let ?r = "member.extend member \<lparr>mws_sports = ?found, mws_subscriptions = ?act\<rparr>"
  have 1: "getMemberWithSports m s = Inr (Some ?r)"
    by (simp add: getMemberWithSports_open [OF o] g)
  have "length ?found \<le> length ?act"
    using length_filter_Boolean [of "map (\<lambda>sub. store_get sport_id (sportId sub) (sports s)) ?act"]
    by simp
  then have 3: "length (mws_sports ?r) \<le> length (mws_subscriptions ?r)"
    by (simp add: member.extend_def)
  have 4: "\<forall>k. k \<in> sport_id ` set (mws_sports ?r) \<longleftrightarrow>
                  (\<exists>v \<in> set (sports s). sport_id v = k) \<and>
                  (\<exists>x \<in> set (subscriptions s).
                      memberId x = m \<and> sub_status x = Active \<and> sportId x = k)"
  proof
    fix k
    have "(\<exists>sub \<in> set ?act. sportId sub = k) \<longleftrightarrow>
      (\<exists>x \<in> set (subscriptions s). memberId x = m \<and> sub_status x = Active \<and> sportId x = k)"
      by (auto simp: active_of_member_def store_getAllFromIndex_def)
    then show "k \<in> sport_id ` set (mws_sports ?r) \<longleftrightarrow>
                  (\<exists>v \<in> set (sports s). sport_id v = k) \<and>
                  (\<exists>x \<in> set (subscriptions s).
                      memberId x = m \<and> sub_status x = Active \<and> sportId x = k)"
      using found_ids [of k sport_id sportId "sports s" ?act]
      by (simp add: member.extend_def)
  qed
  from 1 3 4
  show "\<exists>r. getMemberWithSports m s = Inr (Some r) \<and>
           length (mws_sports r) \<le> length (mws_subscriptions r) \<and>
           (\<forall>k. k \<in> sport_id ` set (mws_sports r) \<longleftrightarrow>
                  (\<exists>v \<in> set (sports s). sport_id v = k) \<and>
                  (\<exists>x \<in> set (subscriptions s).
                      memberId x = m \<and> sub_status x = Active \<and> sportId x = k))"
    by blast
next
  show "\<exists>s sp r. reachable s \<and> getSportWithMembers sp s = Inr (Some r) \<and>
        length (swm_members r) < memberCount r"
    using reachable_club5 dangling_count
    by (intro exI conjI) (assumption, assumption, simp add: sport.extend_def)
next
  show "\<exists>s m r. reachable s \<and> getMemberWithSports m s = Inr (Some r) \<and>
        length (mws_sports r) < length (mws_subscriptions r)"
    using reachable_club6 dangling_sport
    by (intro exI conjI) (assumption, assumption, simp add: member.extend_def)
qed

theorem memberCount_counts_active_rows_witness:
  "getSport ''s1'' club5 = Inr (Some stored_football) \<and>
   getMember ''m1'' club6 = Inr (Some stored_ada) \<and>
   (\<exists>r. getSportWithMembers ''s1'' club5 = Inr (Some r) \<and>
        memberCount r = length (filter (\<lambda>x. sportId x = ''s1'' \<and> sub_status x = Active)
                                  (subscriptions club5)) \<and>
        memberCount r = 1 \<and> swm_members r = []) \<and>
   (\<exists>r. getMemberWithSports ''m1'' club6 = Inr (Some r) \<and>
        length (mws_sports r) \<le> length (mws_subscriptions r) \<and> mws_sports r = [])"
proof -
  have g: "getSport ''s1'' club5 = Inr (Some stored_football)"
    by (simp add: club5_eq getSport_def store_defs row_defs)
  have h: "getMember ''m1'' club6 = Inr (Some stored_ada)"
    by (simp add: club6_eq getMember_def store_defs row_defs)
  note t5 = memberCount_counts_active_rows [where s = club5 and sp = "''s1''"
      and sport = stored_football]
  note t6 = memberCount_counts_active_rows [where s = club6 and m = "''m1''"
      and member = stored_ada]
  from t5 g have a: "\<exists>r. getSportWithMembers ''s1'' club5 = Inr (Some r) \<and>
        memberCount r = length (filter (\<lambda>x. sportId x = ''s1'' \<and> sub_status x = Active)
                                  (subscriptions club5)) \<and>
        memberCount r = 1 \<and> swm_members r = []"
    by (auto simp: dangling_count sport.extend_def)
  from t6 h have b: "\<exists>r. getMemberWithSports ''m1'' club6 = Inr (Some r) \<and>
        length (mws_sports r) \<le> length (mws_subscriptions r) \<and> mws_sports r = []"
    by (auto simp: dangling_sport member.extend_def)
  from g h a b show ?thesis by blast
qed

subsection \<open>Subscribing again after a cancellation\<close>

text \<open>
  C1.  The reachable state \<open>club4\<close> holds the cancelled row of the pair of member \<^verbatim>\<open>m1\<close>
  and sport \<^verbatim>\<open>s1\<close>.  \<^verbatim>\<open>subscribeMemberToSport\<close> passes its own check, since the
  row is not active, and its \<^verbatim>\<open>db.add\<close> is then rejected by the unique index
  \<^verbatim>\<open>by-member-sport\<close>: the call throws \<^verbatim>\<open>ConstraintError\<close> and no row is created.
\<close>

theorem resubscribe_rejected:
  "reachable club4 \<and> subscriptions club4 = [row_cancelled] \<and>
   sub_status row_cancelled = Cancelled \<and>
   subscribeMemberToSport ''m1'' ''s1'' ''u2'' 50 club4 = (Inl ConstraintError, club4)"
  by (simp add: reachable_club4)
     (simp add: club4_eq row_defs subscribeMemberToSport_def getSubscription_def store_defs)

text \<open>
  The same in every state: while a cancelled row of the pair is in the store,
  no call of \<^verbatim>\<open>subscribeMemberToSport\<close> for the pair succeeds.
\<close>

lemma subscribe_after_cancel_fails:
  assumes "\<exists>x \<in> set (subscriptions s). memberId x = m \<and> sportId x = sp \<and> sub_status x = Cancelled"
  shows "\<exists>e. subscribeMemberToSport m sp uuid now s = (Inl e, s)"
  using assms
  by (auto simp: subscribeMemberToSport_def getSubscription_def store_defs
      split: option.splits sum.splits)

end
